theory Spec2Isabelle
  imports Complex_Main "HOL-Library.Signed_Division"
begin

section \<open>Half-frame splitter: the data model of the application component\<close>

text \<open>
  JavaScript numbers that hold pixel dimensions are natural numbers, rotation angles and
  array indices are integers (the values are far below \<open>2 ^ 53\<close>, where doubles are
  exact), and the quotient \<open>width / 2\<close> is a rational: JavaScript's \<open>/\<close> does not
  truncate. Strings are character lists; the two characters the code inspects, the dot and
  the slash, are ASCII.
\<close>

datatype side = Left | Right

datatype error = ReadError | DecodeError

text \<open>
  The encodings the code asks for: JPEG at quality 0.92 for the previews, PNG for the
  originals, JPEG at quality 0.98 for the export.
\<close>

datatype encoding = Jpeg92 | Png | Jpeg98

text \<open>The source rectangle of a \<open>drawImage\<close> call: \<open>sx, sy, sWidth, sHeight\<close>.\<close>

record crop =
  sx :: rat
  sy :: rat
  sWidth :: rat
  sHeight :: rat

text \<open>
  A canvas: its bitmap dimensions and the source rectangle of the \<open>drawImage\<close> call that
  the code makes on it.
\<close>

record canvas =
  cwidth :: nat
  cheight :: nat
  drawn :: crop

text \<open>
  A data URL produced by \<open>toDataURL\<close>. A canvas without pixels, or one that the browser
  cannot serialise, gives the string \<open>data:,\<close>, which no image decoder accepts.
\<close>

datatype dataURL = NoPixels | Encoded encoding canvas

record SplitImage =
  leftHalf :: dataURL
  rightHalf :: dataURL
  leftHalfOriginal :: dataURL
  rightHalfOriginal :: dataURL
  originalName :: string
  leftRotation :: int
  rightRotation :: int
  leftChecked :: bool
  rightChecked :: bool

record progress =
  current :: nat
  total :: nat

text \<open>What the browser is handed by one \<open>a.click()\<close>: the file name and the exported canvas.\<close>

record download =
  dname :: string
  dwidth :: nat
  dheight :: nat
  drotation :: int

text \<open>
  The refs of the component, and the list of downloads triggered so far (the only effect
  of the component outside its own refs).
\<close>

record appState =
  splitImages :: "SplitImage list"
  isImporting :: bool
  importProgress :: progress
  shouldStopImport :: bool
  isDownloading :: bool
  downloadProgress :: progress
  shouldStopDownload :: bool
  downloads :: "download list"

text \<open>
  The browser the component runs in, as far as the code depends on it: whether
  \<open>getContext('2d')\<close> hands out a context, and which canvas sizes it can serialise in
  which encoding (browsers cap the sides and the area of a canvas, and the encoders have
  limits of their own).
\<close>

record browser =
  context2d :: bool
  canEncode :: "encoding \<Rightarrow> nat \<Rightarrow> nat \<Rightarrow> bool"

text \<open>The refs as the component creates them.\<close>

definition initialState :: appState where
  "initialState =
     \<lparr>splitImages = [],
      isImporting = False,
      importProgress = \<lparr>current = 0, total = 0\<rparr>,
      shouldStopImport = False,
      isDownloading = False,
      downloadProgress = \<lparr>current = 0, total = 0\<rparr>,
      shouldStopDownload = False,
      downloads = []\<rparr>"

text \<open>
  The content of a picked file as the decoder sees it: \<open>Corrupt\<close> data makes the image's
  \<open>onerror\<close> fire, a \<open>Bitmap\<close> carries the decoded width and height. A file whose
  \<open>fcontent\<close> is \<open>None\<close> cannot be read by the \<open>FileReader\<close>.
\<close>

datatype imageData = Corrupt | Bitmap nat nat

record File =
  fname :: string
  ftype :: string
  fcontent :: "imageData option"

section \<open>Splitting an image\<close>

text \<open>
  Assigning a number to \<open>canvas.width\<close> or \<open>canvas.height\<close> converts it to an unsigned
  integer by dropping the fraction. Image dimensions are themselves unsigned 32-bit values,
  so a halved dimension is always in range.
\<close>

definition canvasDim :: "rat \<Rightarrow> nat" where
  "canvasDim q = nat \<lfloor>q\<rfloor>"

definition isHorizontal :: "nat \<Rightarrow> nat \<Rightarrow> bool" where
  "isHorizontal width height = (width > height)"

text \<open>
  The two canvases of \<open>splitImageInHalf\<close>: left and right of the vertical midline for a
  wide image, top and bottom of the horizontal midline otherwise. The size of a canvas
  does not depend on its 2D context; \<open>drawn\<close> is the rectangle that the code draws when it
  has one.
\<close>

definition splitCanvases :: "nat \<Rightarrow> nat \<Rightarrow> canvas \<times> canvas" where
  "splitCanvases width height =
     (if isHorizontal width height then
        (let halfWidth = rat_of_nat width / 2 in
           (\<lparr>cwidth = canvasDim halfWidth, cheight = height,
             drawn = \<lparr>sx = 0, sy = 0, sWidth = halfWidth, sHeight = rat_of_nat height\<rparr>\<rparr>,
            \<lparr>cwidth = canvasDim halfWidth, cheight = height,
             drawn = \<lparr>sx = halfWidth, sy = 0, sWidth = halfWidth, sHeight = rat_of_nat height\<rparr>\<rparr>))
      else
        (let halfHeight = rat_of_nat height / 2 in
           (\<lparr>cwidth = width, cheight = canvasDim halfHeight,
             drawn = \<lparr>sx = 0, sy = 0, sWidth = rat_of_nat width, sHeight = halfHeight\<rparr>\<rparr>,
            \<lparr>cwidth = width, cheight = canvasDim halfHeight,
             drawn = \<lparr>sx = 0, sy = halfHeight, sWidth = rat_of_nat width, sHeight = halfHeight\<rparr>\<rparr>)))"

definition toDataURL :: "browser \<Rightarrow> encoding \<Rightarrow> canvas \<Rightarrow> dataURL" where
  "toDataURL b enc c =
     (if cwidth c = 0 \<or> cheight c = 0 \<or> \<not> canEncode b enc (cwidth c) (cheight c)
      then NoPixels
      else Encoded enc c)"

text \<open>The object that \<open>splitImageInHalf\<close> resolves with, for a decoded image.\<close>

definition splitResult :: "browser \<Rightarrow> nat \<Rightarrow> nat \<Rightarrow> string \<Rightarrow> SplitImage" where
  "splitResult b width height fileName =
     (let (firstCanvas, secondCanvas) = splitCanvases width height in
        \<lparr>leftHalf = toDataURL b Jpeg92 firstCanvas,
         rightHalf = toDataURL b Jpeg92 secondCanvas,
         leftHalfOriginal = toDataURL b Png firstCanvas,
         rightHalfOriginal = toDataURL b Png secondCanvas,
         originalName = fileName,
         leftRotation = 0,
         rightRotation = 0,
         leftChecked = False,
         rightChecked = False\<rparr>)"

definition splitImageInHalf :: "browser \<Rightarrow> imageData \<Rightarrow> string \<Rightarrow> error + SplitImage" where
  "splitImageInHalf b imgData fileName =
     (case imgData of
        Corrupt \<Rightarrow> Inl DecodeError
      | Bitmap width height \<Rightarrow> Inr (splitResult b width height fileName))"

section \<open>Importing files\<close>

definition processFile :: "browser \<Rightarrow> File \<Rightarrow> error + SplitImage" where
  "processFile b f =
     (case fcontent f of
        None \<Rightarrow> Inl ReadError
      | Some imgData \<Rightarrow> splitImageInHalf b imgData (fname f))"

text \<open>
  \<open>Promise.all\<close>: the results in order when every promise fulfils, a rejection as soon
  as one rejects (the first in list order stands for the first in time).
\<close>

fun promiseAll :: "(error + 'a) list \<Rightarrow> error + 'a list" where
  "promiseAll [] = Inr []"
| "promiseAll (Inl e # ps) = Inl e"
| "promiseAll (Inr x # ps) = (case promiseAll ps of Inl e \<Rightarrow> Inl e | Inr xs \<Rightarrow> Inr (x # xs))"

definition batchSize :: nat where
  "batchSize = 2"

text \<open>\<open>fileArray.slice(i, j)\<close> for indices that are not negative.\<close>

definition slice :: "'a list \<Rightarrow> nat \<Rightarrow> nat \<Rightarrow> 'a list" where
  "slice xs i j = take (j - i) (drop i xs)"

text \<open>
  The import loop. \<open>stopRequested i\<close> says whether the user presses the stop button while
  the loop is suspended in the round that starts at index \<open>i\<close>. The result is the state
  as the loop leaves it, with \<open>Some e\<close> when the awaited \<open>Promise.all\<close> rejected: nothing
  catches the rejection, so it ends \<open>handleFileSelect\<close> on the spot.
\<close>

function importLoop :: "browser \<Rightarrow> (nat \<Rightarrow> bool) \<Rightarrow> File list \<Rightarrow> nat \<Rightarrow> appState \<Rightarrow> error option \<times> appState" where
  "importLoop b stopRequested fileArray i st =
     (if i < length fileArray then
        (if shouldStopImport st then (None, st)
         else
           (case promiseAll (map (processFile b) (slice fileArray i (i + batchSize))) of
              Inl e \<Rightarrow> (Some e, st)
            | Inr results \<Rightarrow>
                importLoop b stopRequested fileArray (i + batchSize)
                  (st\<lparr>splitImages := splitImages st @ results,
                      importProgress :=
                        (importProgress st)\<lparr>current := min (i + batchSize) (length fileArray)\<rparr>,
                      shouldStopImport := shouldStopImport st \<or> stopRequested i\<rparr>)))
      else (None, st))"
  by pat_completeness auto
termination
  by (relation "measure (\<lambda>(b, stopRequested, fileArray, i, st). length fileArray - i)")
     (auto simp: batchSize_def)

definition startsWith :: "string \<Rightarrow> string \<Rightarrow> bool" where
  "startsWith s p = (take (length p) s = p)"

text \<open>
  \<open>handleFileSelect\<close>; \<open>files\<close> is \<open>None\<close> when the input element has no file list.
  After the loop the flags are reset; a rejection inside the loop skips that. The pauses
  change no state, and the value of the file input, cleared at the very end, is not part
  of the state.
\<close>

definition handleFileSelect :: "browser \<Rightarrow> (nat \<Rightarrow> bool) \<Rightarrow> File list option \<Rightarrow> appState \<Rightarrow> error option \<times> appState" where
  "handleFileSelect b stopRequested files st =
     (case files of
        None \<Rightarrow> (None, st)
      | Some fs \<Rightarrow>
          (if length fs = 0 then (None, st)
           else
             (let fileArray = filter (\<lambda>f. startsWith (ftype f) ''image/'') fs in
                if length fileArray = 0 then (None, st)
                else
                  (case importLoop b stopRequested fileArray 0
                          (st\<lparr>isImporting := True,
                              shouldStopImport := False,
                              importProgress := \<lparr>current = 0, total = length fileArray\<rparr>\<rparr>) of
                     (Some e, st') \<Rightarrow> (Some e, st')
                   | (None, st') \<Rightarrow>
                       (None, st'\<lparr>isImporting := False, shouldStopImport := False\<rparr>)))))"

section \<open>The pair registry\<close>

text \<open>\<open>splitImages.value[pairIndex]\<close>: \<open>undefined\<close> (here \<open>None\<close>) outside the array.\<close>

definition pairAt :: "appState \<Rightarrow> int \<Rightarrow> SplitImage option" where
  "pairAt st pairIndex =
     (if 0 \<le> pairIndex \<and> pairIndex < int (length (splitImages st))
      then Some (splitImages st ! nat pairIndex) else None)"

text \<open>
  \<open>array.splice(index, 1)\<close>: a negative index counts from the end, the start position is
  clamped to the array, and at most one element is removed there.
\<close>

definition splice1 :: "'a list \<Rightarrow> int \<Rightarrow> 'a list" where
  "splice1 xs index =
     (let len = int (length xs);
          start = (if index < 0 then max (len + index) 0 else min index len)
      in take (nat start) xs @ drop (nat start + 1) xs)"

definition removeImagePair :: "int \<Rightarrow> appState \<Rightarrow> appState" where
  "removeImagePair index st = st\<lparr>splitImages := splice1 (splitImages st) index\<rparr>"

definition clearAll :: "appState \<Rightarrow> appState" where
  "clearAll st = st\<lparr>splitImages := []\<rparr>"

definition rotateToDirection :: "int \<Rightarrow> side \<Rightarrow> int \<Rightarrow> appState \<Rightarrow> appState" where
  "rotateToDirection pairIndex sd deltaRotation st =
     (case pairAt st pairIndex of
        None \<Rightarrow> st
      | Some img \<Rightarrow>
          (let currentRotation = (if sd = Left then leftRotation img else rightRotation img);
               newRotation = currentRotation + deltaRotation
           in st\<lparr>splitImages := (splitImages st)
                  [nat pairIndex := (if sd = Left then img\<lparr>leftRotation := newRotation\<rparr>
                                     else img\<lparr>rightRotation := newRotation\<rparr>)]\<rparr>))"

definition toggleCheck :: "int \<Rightarrow> side \<Rightarrow> appState \<Rightarrow> appState" where
  "toggleCheck pairIndex sd st =
     (case pairAt st pairIndex of
        None \<Rightarrow> st
      | Some img \<Rightarrow>
          st\<lparr>splitImages := (splitImages st)
                [nat pairIndex := (if sd = Left then img\<lparr>leftChecked := \<not> leftChecked img\<rparr>
                                   else img\<lparr>rightChecked := \<not> rightChecked img\<rparr>)]\<rparr>)"

text \<open>The fields of one half, as the template and the export read them.\<close>

definition rotationOf :: "side \<Rightarrow> SplitImage \<Rightarrow> int" where
  "rotationOf sd img = (if sd = Left then leftRotation img else rightRotation img)"

definition checkedOf :: "side \<Rightarrow> SplitImage \<Rightarrow> bool" where
  "checkedOf sd img = (if sd = Left then leftChecked img else rightChecked img)"

section \<open>Exporting a half\<close>

text \<open>
  JavaScript's \<open>%\<close> takes the sign of the dividend, which on integers is \<open>smod\<close>.
\<close>

definition normalizedRotation :: "int \<Rightarrow> int" where
  "normalizedRotation rotation = ((rotation smod 360) + 360) smod 360"

text \<open>
  Loading a data URL into an \<open>Image\<close>: \<open>onload\<close> fires with the bitmap's size, or never.
  An image that loads has pixels.
\<close>

definition loadImage :: "dataURL \<Rightarrow> (nat \<times> nat) option" where
  "loadImage d =
     (case d of
        NoPixels \<Rightarrow> None
      | Encoded enc c \<Rightarrow>
          if cwidth c = 0 \<or> cheight c = 0 then None else Some (cwidth c, cheight c))"

text \<open>The width and height given to the export canvas.\<close>

definition exportCanvas :: "nat \<Rightarrow> nat \<Rightarrow> int \<Rightarrow> nat \<times> nat" where
  "exportCanvas imgWidth imgHeight rotation =
     (if normalizedRotation rotation = 90 \<or> normalizedRotation rotation = 270
      then (imgHeight, imgWidth)
      else (imgWidth, imgHeight))"

text \<open>
  \<open>fileName.replace(/\.[^/.]+$/, '')\<close>: the leftmost position at which a dot is followed,
  up to the end of the string, by one or more characters that are neither a slash nor a
  dot; the match runs to the end, so replacing it cuts the string there.
\<close>

definition extensionChar :: "char \<Rightarrow> bool" where
  "extensionChar c = (c \<noteq> CHR ''/'' \<and> c \<noteq> CHR ''.'')"

fun stripExtension :: "string \<Rightarrow> string" where
  "stripExtension [] = []"
| "stripExtension (c # cs) =
     (if c = CHR ''.'' \<and> cs \<noteq> [] \<and> list_all extensionChar cs then []
      else c # stripExtension cs)"

definition downloadName :: "string \<Rightarrow> string \<Rightarrow> string" where
  "downloadName fileName sideLabel = stripExtension fileName @ ''_'' @ sideLabel @ ''.jpg''"

definition sideLabelOf :: "side \<Rightarrow> string" where
  "sideLabelOf sd = (if sd = Left then ''left'' else ''right'')"

text \<open>
  \<open>downloadHalf\<close>, with its three exits before the download: the image does not load
  (\<open>onload\<close> never runs), the new canvas gets no 2D context (\<open>if (!ctx) return\<close>), or
  \<open>toBlob\<close> hands its callback no blob (\<open>if (!blob) return\<close>), as it does for a canvas
  that it cannot serialise. Otherwise the browser is handed the rotated canvas under the
  derived name.
\<close>

definition downloadHalf :: "browser \<Rightarrow> dataURL \<Rightarrow> int \<Rightarrow> string \<Rightarrow> string \<Rightarrow> download option" where
  "downloadHalf b imgData rotation fileName sideLabel =
     (case loadImage imgData of
        None \<Rightarrow> None
      | Some (imgWidth, imgHeight) \<Rightarrow>
          if \<not> context2d b then None
          else
            (let (w, h) = exportCanvas imgWidth imgHeight rotation in
               if w = 0 \<or> h = 0 \<or> \<not> canEncode b Jpeg98 w h then None
               else Some \<lparr>dname = downloadName fileName sideLabel,
                          dwidth = w, dheight = h, drotation = rotation\<rparr>))"

section \<open>Exporting the checked halves\<close>

definition checkedCount :: "appState \<Rightarrow> nat" where
  "checkedCount st =
     foldl (\<lambda>count img. count + (if leftChecked img then 1 else 0)
                               + (if rightChecked img then 1 else 0))
           0 (splitImages st)"

text \<open>
  One export inside the loop: the download, the progress increment and the pause.
  \<open>stopRequested n\<close> says whether the user presses the stop button during the pause that
  follows the \<open>n\<close>-th export. A download is recorded when it is requested, although the
  browser saves the file only once the image has loaded and the blob is ready.
\<close>

definition exportHalf :: "browser \<Rightarrow> (nat \<Rightarrow> bool) \<Rightarrow> dataURL \<Rightarrow> int \<Rightarrow> string \<Rightarrow> string \<Rightarrow> appState \<Rightarrow> appState" where
  "exportHalf b stopRequested imgData rotation fileName sideLabel st =
     (let n = current (downloadProgress st) + 1 in
        st\<lparr>downloads := downloads st @
              (case downloadHalf b imgData rotation fileName sideLabel of
                 None \<Rightarrow> [] | Some d \<Rightarrow> [d]),
           downloadProgress := (downloadProgress st)\<lparr>current := n\<rparr>,
           shouldStopDownload := shouldStopDownload st \<or> stopRequested n\<rparr>)"

text \<open>
  The loop over the registry. Every index below the length holds a pair, so the guard
  \<open>if (!img) continue\<close> never fires; each \<open>break\<close> returns the state as it stands.
\<close>

function exportLoop :: "browser \<Rightarrow> (nat \<Rightarrow> bool) \<Rightarrow> nat \<Rightarrow> appState \<Rightarrow> appState" where
  "exportLoop b stopRequested i st =
     (if i < length (splitImages st) then
        (if shouldStopDownload st then st
         else
           (let img = splitImages st ! i in
              if leftChecked img \<and> shouldStopDownload st then st
              else
                (let st1 = (if leftChecked img
                            then exportHalf b stopRequested (leftHalfOriginal img)
                                   (leftRotation img) (originalName img) ''left'' st
                            else st)
                 in if rightChecked img \<and> shouldStopDownload st1 then st1
                    else
                      exportLoop b stopRequested (i + 1)
                        (if rightChecked img
                         then exportHalf b stopRequested (rightHalfOriginal img)
                                (rightRotation img) (originalName img) ''right'' st1
                         else st1))))
      else st)"
  by pat_completeness auto
termination
  by (relation "measure (\<lambda>(b, stopRequested, i, st). length (splitImages st) - i)")
     (auto simp: exportHalf_def Let_def)

definition downloadChecked :: "browser \<Rightarrow> (nat \<Rightarrow> bool) \<Rightarrow> appState \<Rightarrow> appState" where
  "downloadChecked b stopRequested st =
     (let total = checkedCount st in
        if total = 0 then st
        else
          (exportLoop b stopRequested 0
             (st\<lparr>isDownloading := True,
                 shouldStopDownload := False,
                 downloadProgress := \<lparr>current = 0, total = total\<rparr>\<rparr>))
          \<lparr>isDownloading := False, shouldStopDownload := False\<rparr>)"

section \<open>Notions of the specification\<close>

text \<open>
  A split along the vertical midline shows the left half of the source in the first canvas
  and the right half in the second; a split along the horizontal midline shows the top
  half and the bottom half.
\<close>

definition verticalMidlineSplit :: "nat \<Rightarrow> nat \<Rightarrow> canvas \<times> canvas \<Rightarrow> bool" where
  "verticalMidlineSplit width height cs =
     (drawn (fst cs) = \<lparr>sx = 0, sy = 0,
                         sWidth = rat_of_nat width / 2, sHeight = rat_of_nat height\<rparr>
      \<and> drawn (snd cs) = \<lparr>sx = rat_of_nat width / 2, sy = 0,
                           sWidth = rat_of_nat width / 2, sHeight = rat_of_nat height\<rparr>)"

definition horizontalMidlineSplit :: "nat \<Rightarrow> nat \<Rightarrow> canvas \<times> canvas \<Rightarrow> bool" where
  "horizontalMidlineSplit width height cs =
     (drawn (fst cs) = \<lparr>sx = 0, sy = 0,
                         sWidth = rat_of_nat width, sHeight = rat_of_nat height / 2\<rparr>
      \<and> drawn (snd cs) = \<lparr>sx = 0, sy = rat_of_nat height / 2,
                           sWidth = rat_of_nat width, sHeight = rat_of_nat height / 2\<rparr>)"

text \<open>
  The specification's base name: the file name without its last dot-delimited extension,
  that is, without its last dot and what follows it. A name without a dot has no extension.
\<close>

definition lastExtension :: "string \<Rightarrow> string option" where
  "lastExtension fileName =
     (if CHR ''.'' \<in> set fileName
      then Some (rev (takeWhile (\<lambda>c. c \<noteq> CHR ''.'') (rev fileName)))
      else None)"

definition sourceBaseName :: "string \<Rightarrow> string" where
  "sourceBaseName fileName =
     (case lastExtension fileName of
        None \<Rightarrow> fileName
      | Some ext \<Rightarrow> take (length fileName - length ext - 1) fileName)"

section \<open>A browser for the concrete runs\<close>

text \<open>
  It hands out 2D contexts and serialises, in every encoding, canvases of up to 16384
  pixels a side.
\<close>

definition sampleBrowser :: browser where
  "sampleBrowser =
     \<lparr>context2d = True,
      canEncode = (\<lambda>enc width height. width \<le> 16384 \<and> height \<le> 16384)\<rparr>"

declare importLoop.simps [simp del]
declare exportLoop.simps [simp del]

section \<open>Rotation normalisation\<close>

lemma normalizedRotation_mod: "normalizedRotation x = x mod 360"
proof (cases "0 \<le> x")
  case True
  then have "x smod 360 = x mod 360"
    by (simp add: smod_int_alt_def sgn_if)
  moreover have "0 \<le> x mod 360 + 360" by simp
  then have "(x mod 360 + 360) smod 360 = (x mod 360 + 360) mod 360"
    by (simp add: smod_int_alt_def sgn_if)
  ultimately show ?thesis by (simp add: normalizedRotation_def)
next
  case False
  then have neg: "x smod 360 = - ((- x) mod 360)"
    by (simp add: smod_int_alt_def sgn_if)
  have "(- x) mod 360 < 360" by simp
  then have "0 < - ((- x) mod 360) + 360" by linarith
  then have "(- ((- x) mod 360) + 360) smod 360 = (- ((- x) mod 360) + 360) mod 360"
    by (simp add: smod_int_alt_def sgn_if)
  also have "\<dots> = (- ((- x) mod 360)) mod 360" by simp
  also have "\<dots> = x mod 360" by (simp add: mod_minus_eq)
  finally show ?thesis using neg by (simp add: normalizedRotation_def)
qed

text \<open>
  Claim C5. For every integer \<open>x\<close>, negative ones included, the normalisation
  \<open>((x % 360) + 360) % 360\<close> lies in \<open>[0, 360)\<close>, and normalising twice is the same as
  normalising once.
\<close>

theorem normalizedRotation_range_idempotent:
  "0 \<le> normalizedRotation x \<and> normalizedRotation x < 360
   \<and> normalizedRotation (normalizedRotation x) = normalizedRotation x"
  by (simp add: normalizedRotation_mod)

section \<open>Splitting\<close>

lemma canvasDim_half: "canvasDim (rat_of_nat n / 2) = n div 2"
  unfolding canvasDim_def
  by (metis floor_divide_of_nat_eq nat_int of_nat_numeral)

text \<open>The sizes of the two canvases.\<close>

lemma splitCanvases_sizes:
  "(case splitCanvases w h of
      (a, b) \<Rightarrow>
        if w > h then
          cwidth a = w div 2 \<and> cwidth b = w div 2 \<and> cheight a = h \<and> cheight b = h
          \<and> cwidth a + cwidth b = (w div 2) * 2
          \<and> w - (cwidth a + cwidth b) = (if odd w then 1 else 0)
        else
          cheight a = h div 2 \<and> cheight b = h div 2 \<and> cwidth a = w \<and> cwidth b = w
          \<and> cheight a + cheight b = (h div 2) * 2
          \<and> h - (cheight a + cheight b) = (if odd h then 1 else 0))"
  by (auto simp: splitCanvases_def isHorizontal_def Let_def canvasDim_half elim: oddE)

lemma loadImage_toDataURL:
  "loadImage (toDataURL b enc c) =
     (if cwidth c = 0 \<or> cheight c = 0 \<or> \<not> canEncode b enc (cwidth c) (cheight c) then None
      else Some (cwidth c, cheight c))"
  by (simp add: loadImage_def toDataURL_def)

lemma half_positive: "0 < h \<Longrightarrow> h < w \<Longrightarrow> 0 < w div (2::nat)"
  by (simp add: div_greater_zero_iff)

lemma dropped_by_halving: "w - (w div 2 + w div 2) = (if odd w then 1 else (0::nat))"
  by (auto elim: oddE)

text \<open>
  Claim C2, as amended. \<open>splitImageInHalf\<close> resolves for every decoded image. For
  \<open>width > height\<close> each of the four encoded halves is an image \<open>floor(width / 2)\<close> wide and
  as high as the source, provided the browser can serialise a canvas of that size; the
  two widths sum to \<open>floor(width / 2) * 2\<close> and exactly one column is lost iff the width is
  odd. For \<open>width \<le> height\<close> and a height of at least 2 the same holds with the roles of
  width and height exchanged. A source that is one pixel high yields four data URLs
  without pixels.
\<close>

theorem splitImageInHalf_half_dimensions:
  "0 < w \<Longrightarrow> 0 < h \<Longrightarrow>
   (\<exists>r. splitImageInHalf b (Bitmap w h) fileName = Inr r
      \<and> (h < w \<longrightarrow> canEncode b Jpeg92 (w div 2) h \<longrightarrow> canEncode b Png (w div 2) h \<longrightarrow>
            loadImage (leftHalf r) = Some (w div 2, h)
          \<and> loadImage (rightHalf r) = Some (w div 2, h)
          \<and> loadImage (leftHalfOriginal r) = Some (w div 2, h)
          \<and> loadImage (rightHalfOriginal r) = Some (w div 2, h)
          \<and> w div 2 + w div 2 = (w div 2) * 2
          \<and> w - (w div 2 + w div 2) = (if odd w then 1 else 0))
      \<and> (w \<le> h \<longrightarrow> 2 \<le> h \<longrightarrow>
          canEncode b Jpeg92 w (h div 2) \<longrightarrow> canEncode b Png w (h div 2) \<longrightarrow>
            loadImage (leftHalf r) = Some (w, h div 2)
          \<and> loadImage (rightHalf r) = Some (w, h div 2)
          \<and> loadImage (leftHalfOriginal r) = Some (w, h div 2)
          \<and> loadImage (rightHalfOriginal r) = Some (w, h div 2)
          \<and> h div 2 + h div 2 = (h div 2) * 2
          \<and> h - (h div 2 + h div 2) = (if odd h then 1 else 0))
      \<and> (w \<le> h \<longrightarrow> h = 1 \<longrightarrow>
            leftHalf r = NoPixels \<and> rightHalf r = NoPixels
          \<and> leftHalfOriginal r = NoPixels \<and> rightHalfOriginal r = NoPixels))"
proof -
  assume pos: "0 < w" "0 < h"
  let ?r = "splitResult b w h fileName"
  have res: "splitImageInHalf b (Bitmap w h) fileName = Inr ?r"
    by (simp add: splitImageInHalf_def)
  have wide: "loadImage (leftHalf ?r) = Some (w div 2, h)
          \<and> loadImage (rightHalf ?r) = Some (w div 2, h)
          \<and> loadImage (leftHalfOriginal ?r) = Some (w div 2, h)
          \<and> loadImage (rightHalfOriginal ?r) = Some (w div 2, h)"
    if "h < w" "canEncode b Jpeg92 (w div 2) h" "canEncode b Png (w div 2) h"
    using that pos half_positive [of h w]
    by (simp add: splitResult_def splitCanvases_def isHorizontal_def Let_def canvasDim_half
          loadImage_toDataURL)
  have tall: "loadImage (leftHalf ?r) = Some (w, h div 2)
          \<and> loadImage (rightHalf ?r) = Some (w, h div 2)
          \<and> loadImage (leftHalfOriginal ?r) = Some (w, h div 2)
          \<and> loadImage (rightHalfOriginal ?r) = Some (w, h div 2)"
    if "w \<le> h" "2 \<le> h" "canEncode b Jpeg92 w (h div 2)" "canEncode b Png w (h div 2)"
  proof -
    have "0 < h div 2" using that(2) by (simp add: div_greater_zero_iff)
    then show ?thesis
      using that pos
      by (simp add: splitResult_def splitCanvases_def isHorizontal_def Let_def canvasDim_half
            loadImage_toDataURL)
  qed
  have one: "leftHalf ?r = NoPixels \<and> rightHalf ?r = NoPixels
          \<and> leftHalfOriginal ?r = NoPixels \<and> rightHalfOriginal ?r = NoPixels"
    if "w \<le> h" "h = 1"
    using that
    by (simp add: splitResult_def splitCanvases_def isHorizontal_def Let_def canvasDim_def
          toDataURL_def)
  show ?thesis
    using res wide tall one dropped_by_halving [of w] dropped_by_halving [of h]
    by (intro exI [of _ ?r]) simp
qed

theorem splitImageInHalf_half_dimensions_witness:
  "splitImageInHalf sampleBrowser (Bitmap 5 3) ''roll1.jpg''
     = Inr (splitResult sampleBrowser 5 3 ''roll1.jpg'')
   \<and> loadImage (leftHalf (splitResult sampleBrowser 5 3 ''roll1.jpg'')) = Some (2, 3)
   \<and> loadImage (rightHalfOriginal (splitResult sampleBrowser 5 3 ''roll1.jpg'')) = Some (2, 3)
   \<and> splitImageInHalf sampleBrowser (Bitmap 4 6) ''roll2.jpg''
     = Inr (splitResult sampleBrowser 4 6 ''roll2.jpg'')
   \<and> loadImage (leftHalf (splitResult sampleBrowser 4 6 ''roll2.jpg'')) = Some (4, 3)
   \<and> loadImage (rightHalfOriginal (splitResult sampleBrowser 4 6 ''roll2.jpg'')) = Some (4, 3)"
proof -
  have wide: "(0::nat) < 5" "(0::nat) < 3" and tall: "(0::nat) < 4" "(0::nat) < 6"
    by simp_all
  show ?thesis
    using splitImageInHalf_half_dimensions
            [OF wide, where b = sampleBrowser and fileName = "''roll1.jpg''"]
          splitImageInHalf_half_dimensions
            [OF tall, where b = sampleBrowser and fileName = "''roll2.jpg''"]
    by (auto simp: splitImageInHalf_def sampleBrowser_def)
qed

text \<open>
  Claim C2 as stated fails for an image of one pixel: the two canvases are 1 wide and 0
  high, so every half is the data URL without pixels and no half of width 1 and height
  \<open>floor(1 / 2)\<close> comes out of the split.
\<close>

theorem splitImageInHalf_one_pixel_counterexample:
  "splitImageInHalf sampleBrowser (Bitmap 1 1) ''dot.png''
     = Inr \<lparr>leftHalf = NoPixels, rightHalf = NoPixels,
            leftHalfOriginal = NoPixels, rightHalfOriginal = NoPixels,
            originalName = ''dot.png'', leftRotation = 0, rightRotation = 0,
            leftChecked = False, rightChecked = False\<rparr>
   \<and> loadImage NoPixels = None"
  by (simp add: splitImageInHalf_def splitResult_def splitCanvases_def isHorizontal_def Let_def
        canvasDim_def toDataURL_def loadImage_def)

text \<open>
  Claim C6. For positive dimensions the split is along the vertical midline (left and
  right halves) iff \<open>width > height\<close>, and along the horizontal midline (top and bottom
  halves) otherwise; a square image is split along the horizontal midline.
\<close>

theorem split_axis_by_orientation:
  "0 < w \<Longrightarrow> 0 < h \<Longrightarrow>
     verticalMidlineSplit w h (splitCanvases w h) = (w > h)
   \<and> horizontalMidlineSplit w h (splitCanvases w h) = (\<not> w > h)
   \<and> (w = h \<longrightarrow> horizontalMidlineSplit w h (splitCanvases w h)
                 \<and> \<not> verticalMidlineSplit w h (splitCanvases w h))"
  by (auto simp: verticalMidlineSplit_def horizontalMidlineSplit_def splitCanvases_def
        isHorizontal_def Let_def)

theorem split_axis_by_orientation_witness:
  "(0::nat) < 2000
   \<and> horizontalMidlineSplit 2000 2000 (splitCanvases 2000 2000)
   \<and> \<not> verticalMidlineSplit 2000 2000 (splitCanvases 2000 2000)"
  using split_axis_by_orientation [where w = 2000 and h = 2000] by simp

section \<open>Export of one half\<close>

lemma loadImage_positive: "loadImage imgData = Some (w, h) \<Longrightarrow> 0 < w \<and> 0 < h"
  by (auto simp: loadImage_def split: dataURL.splits if_splits)

lemma quarter_turns_mod_360:
  "90 dvd r \<Longrightarrow> r mod 360 = 0 \<or> r mod 360 = 90 \<or> r mod 360 = 180 \<or> r mod (360::int) = 270"
proof -
  assume "90 dvd r"
  then obtain k where r: "r = 90 * k" by (auto elim: dvdE)
  have "r mod 360 = 90 * (k mod 4)"
    using mult_mod_right [of 90 k 4] by (simp add: r)
  moreover have "0 \<le> k mod 4" "k mod 4 < 4" by simp_all
  then have "k mod 4 = 0 \<or> k mod 4 = 1 \<or> k mod 4 = 2 \<or> k mod 4 = 3" by linarith
  ultimately show ?thesis by auto
qed

text \<open>
  Claim C4. For a half that loads as a \<open>w\<close> by \<open>h\<close> image, in a browser that hands out a
  context and can serialise the canvas, every stored angle \<open>r\<close> leads to a download whose
  canvas has width and height exchanged iff \<open>r\<close> modulo 360 is 90 or 270, and has the
  source's own width and height when \<open>r\<close> modulo 360 is 0 or 180. A stored angle is a
  multiple of 90, so one of the two cases applies.
\<close>

theorem downloadHalf_canvas_dimensions:
  "loadImage imgData = Some (w, h) \<Longrightarrow> context2d b \<Longrightarrow>
   canEncode b Jpeg98 w h \<Longrightarrow> canEncode b Jpeg98 h w \<Longrightarrow>
     (\<exists>d. downloadHalf b imgData r fileName sideLabel = Some d
        \<and> (r mod 360 = 90 \<or> r mod 360 = 270 \<longrightarrow> dwidth d = h \<and> dheight d = w)
        \<and> (r mod 360 = 0 \<or> r mod 360 = 180 \<longrightarrow> dwidth d = w \<and> dheight d = h)
        \<and> (w \<noteq> h \<longrightarrow>
              (dwidth d = h \<and> dheight d = w) = (r mod 360 = 90 \<or> r mod 360 = 270))
        \<and> (90 dvd r \<longrightarrow>
              (r mod 360 = 90 \<or> r mod 360 = 270) \<or> (r mod 360 = 0 \<or> r mod 360 = 180)))"
proof -
  assume img: "loadImage imgData = Some (w, h)" and ctx: "context2d b"
    and enc: "canEncode b Jpeg98 w h" "canEncode b Jpeg98 h w"
  have pos: "0 < w" "0 < h" using loadImage_positive [OF img] by simp_all
  show ?thesis
  proof (cases "r mod 360 = 90 \<or> r mod 360 = 270")
    case True
    then have "downloadHalf b imgData r fileName sideLabel
                 = Some \<lparr>dname = downloadName fileName sideLabel,
                         dwidth = h, dheight = w, drotation = r\<rparr>"
      using img ctx enc pos
      by (auto simp: downloadHalf_def exportCanvas_def normalizedRotation_mod)
    with True show ?thesis by auto
  next
    case False
    then have "downloadHalf b imgData r fileName sideLabel
                 = Some \<lparr>dname = downloadName fileName sideLabel,
                         dwidth = w, dheight = h, drotation = r\<rparr>"
      using img ctx enc pos
      by (auto simp: downloadHalf_def exportCanvas_def normalizedRotation_mod)
    with False quarter_turns_mod_360 [of r] show ?thesis by auto
  qed
qed

theorem downloadHalf_canvas_dimensions_witness:
  "loadImage (leftHalfOriginal (splitResult sampleBrowser 4000 3000 ''roll1.jpg''))
     = Some (2000, 3000)
   \<and> context2d sampleBrowser
   \<and> canEncode sampleBrowser Jpeg98 2000 3000 \<and> canEncode sampleBrowser Jpeg98 3000 2000
   \<and> (450::int) mod 360 = 90
   \<and> (\<exists>d. downloadHalf sampleBrowser
             (leftHalfOriginal (splitResult sampleBrowser 4000 3000 ''roll1.jpg'')) 450
             ''roll1.jpg'' ''left'' = Some d
          \<and> dwidth d = 3000 \<and> dheight d = 2000)"
proof -
  have img: "loadImage (leftHalfOriginal (splitResult sampleBrowser 4000 3000 ''roll1.jpg''))
               = Some (2000, 3000)"
    by (simp add: loadImage_def splitResult_def splitCanvases_def isHorizontal_def Let_def
          toDataURL_def canvasDim_def sampleBrowser_def)
  have ctx: "context2d sampleBrowser" by (simp add: sampleBrowser_def)
  have enc: "canEncode sampleBrowser Jpeg98 2000 3000" "canEncode sampleBrowser Jpeg98 3000 2000"
    by (simp_all add: sampleBrowser_def)
  have turn: "(450::int) mod 360 = 90" by simp
  show ?thesis
    using img ctx enc turn
      downloadHalf_canvas_dimensions [OF img ctx enc, where r = 450
        and fileName = "''roll1.jpg''" and sideLabel = "''left''"]
    by auto
qed

section \<open>Rotating, selecting and removing\<close>

lemma pairAt_Some_iff:
  "pairAt st i = Some p \<longleftrightarrow>
     0 \<le> i \<and> i < int (length (splitImages st)) \<and> splitImages st ! nat i = p"
  by (auto simp: pairAt_def)

lemma pairAt_rotateToDirection:
  "pairAt st i = Some p \<Longrightarrow>
   pairAt (rotateToDirection i sd d st) i =
     Some (if sd = Left then p\<lparr>leftRotation := leftRotation p + d\<rparr>
           else p\<lparr>rightRotation := rightRotation p + d\<rparr>)"
  by (auto simp: rotateToDirection_def pairAt_def Let_def split: if_splits)

lemma rotateToDirection_iterate:
  "pairAt st i = Some p \<Longrightarrow>
   map_option (rotationOf sd) (pairAt ((rotateToDirection i sd d ^^ n) st) i)
     = Some (rotationOf sd p + int n * d)"
proof (induction n)
  case 0
  then show ?case by simp
next
  case (Suc n)
  then obtain q where q: "pairAt ((rotateToDirection i sd d ^^ n) st) i = Some q"
    "rotationOf sd q = rotationOf sd p + int n * d"
    by auto
  show ?case
    using pairAt_rotateToDirection [OF q(1), where sd = sd and d = d] q(2)
    by (cases sd) (simp_all add: rotationOf_def algebra_simps)
qed

text \<open>
  Claim C3. For an index that holds a pair, a side and a delta among 0, +90, -90 and +180,
  \<open>rotateToDirection\<close> stores exactly the previous angle plus the delta: nothing is
  normalised when storing, so \<open>n\<close> quarter turns add \<open>90 * n\<close> to the stored angle without
  bound. Four quarter turns from 0 store 360, which the export normalises to 0.
\<close>

theorem rotateToDirection_accumulates:
  "pairAt st i = Some p \<Longrightarrow> d \<in> {0, 90, - 90, 180} \<Longrightarrow>
     map_option (rotationOf sd) (pairAt (rotateToDirection i sd d st) i)
       = Some (rotationOf sd p + d)
   \<and> (\<forall>n. map_option (rotationOf sd) (pairAt ((rotateToDirection i sd 90 ^^ n) st) i)
            = Some (rotationOf sd p + 90 * int n))
   \<and> (rotationOf sd p = 0 \<longrightarrow>
        map_option (rotationOf sd) (pairAt ((rotateToDirection i sd 90 ^^ 4) st) i) = Some 360
        \<and> map_option (normalizedRotation \<circ> rotationOf sd)
            (pairAt ((rotateToDirection i sd 90 ^^ 4) st) i) = Some 0)"
proof (intro conjI allI impI)
  assume p: "pairAt st i = Some p"
  show "map_option (rotationOf sd) (pairAt (rotateToDirection i sd d st) i)
          = Some (rotationOf sd p + d)"
    using pairAt_rotateToDirection [OF p, where sd = sd and d = d] by (simp add: rotationOf_def)
  show "map_option (rotationOf sd) (pairAt ((rotateToDirection i sd 90 ^^ n) st) i)
          = Some (rotationOf sd p + 90 * int n)" for n
    using rotateToDirection_iterate [OF p, where sd = sd and d = 90 and n = n]
    by (simp add: mult.commute)
  assume z: "rotationOf sd p = 0"
  show "map_option (rotationOf sd) (pairAt ((rotateToDirection i sd 90 ^^ 4) st) i) = Some 360"
    using rotateToDirection_iterate [OF p, where sd = sd and d = 90 and n = 4] z by simp
  then show "map_option (normalizedRotation \<circ> rotationOf sd)
               (pairAt ((rotateToDirection i sd 90 ^^ 4) st) i) = Some 0"
    by (auto simp: normalizedRotation_def)
qed

theorem rotateToDirection_accumulates_witness:
  "pairAt (initialState\<lparr>splitImages := [splitResult sampleBrowser 4000 2000 ''roll1.jpg'']\<rparr>) 0
     = Some (splitResult sampleBrowser 4000 2000 ''roll1.jpg'')
   \<and> (- 90::int) \<in> {0, 90, - 90, 180}
   \<and> rotationOf Left (splitResult sampleBrowser 4000 2000 ''roll1.jpg'') = 0
   \<and> map_option (rotationOf Left)
        (pairAt (rotateToDirection 0 Left (- 90)
                  (initialState\<lparr>splitImages := [splitResult sampleBrowser 4000 2000 ''roll1.jpg'']\<rparr>)) 0)
       = Some (- 90)
   \<and> map_option (normalizedRotation \<circ> rotationOf Left)
        (pairAt ((rotateToDirection 0 Left 90 ^^ 4)
                  (initialState\<lparr>splitImages := [splitResult sampleBrowser 4000 2000 ''roll1.jpg'']\<rparr>)) 0)
       = Some 0"
proof -
  let ?st = "initialState\<lparr>splitImages := [splitResult sampleBrowser 4000 2000 ''roll1.jpg'']\<rparr>"
  have p: "pairAt ?st 0 = Some (splitResult sampleBrowser 4000 2000 ''roll1.jpg'')"
    by (simp add: pairAt_def)
  have d: "(- 90::int) \<in> {0, 90, - 90, 180}" by simp
  have z: "rotationOf Left (splitResult sampleBrowser 4000 2000 ''roll1.jpg'') = 0"
    by (simp add: rotationOf_def splitResult_def Let_def split: prod.splits)
  show ?thesis
    using p d z rotateToDirection_accumulates [OF p d, where sd = Left]
    by simp
qed

text \<open>
  Claim C10. At an index where the registry holds no pair, rotating and toggling the
  selection return without changing the registry or any other state.
\<close>

theorem out_of_range_index_noop:
  "i < 0 \<or> int (length (splitImages st)) \<le> i \<Longrightarrow>
     pairAt st i = None \<and> rotateToDirection i sd d st = st \<and> toggleCheck i sd st = st"
  by (auto simp: rotateToDirection_def toggleCheck_def pairAt_def)

theorem out_of_range_index_noop_witness:
  "int (length (splitImages
        (initialState\<lparr>splitImages := [splitResult sampleBrowser 4000 2000 ''roll1.jpg'']\<rparr>))) \<le> 1
   \<and> rotateToDirection 1 Right 90
        (initialState\<lparr>splitImages := [splitResult sampleBrowser 4000 2000 ''roll1.jpg'']\<rparr>)
       = initialState\<lparr>splitImages := [splitResult sampleBrowser 4000 2000 ''roll1.jpg'']\<rparr>
   \<and> toggleCheck 1 Right
        (initialState\<lparr>splitImages := [splitResult sampleBrowser 4000 2000 ''roll1.jpg'']\<rparr>)
       = initialState\<lparr>splitImages := [splitResult sampleBrowser 4000 2000 ''roll1.jpg'']\<rparr>"
  using out_of_range_index_noop
    [where i = 1 and st = "initialState\<lparr>splitImages := [splitResult sampleBrowser 4000 2000 ''roll1.jpg'']\<rparr>"
       and sd = Right and d = 90]
  by simp

lemma pairAt_toggleCheck:
  "pairAt st i = Some p \<Longrightarrow>
   pairAt (toggleCheck i sd st) i =
     Some (if sd = Left then p\<lparr>leftChecked := \<not> leftChecked p\<rparr>
           else p\<lparr>rightChecked := \<not> rightChecked p\<rparr>)"
  by (auto simp: toggleCheck_def pairAt_def split: if_splits)

lemma length_toggleCheck:
  "length (splitImages (toggleCheck i sd st)) = length (splitImages st)"
  by (auto simp: toggleCheck_def split: option.splits)

lemma pairAt_removeImagePair:
  "0 \<le> j \<Longrightarrow> j < int (length (splitImages st)) \<Longrightarrow>
   0 \<le> i \<Longrightarrow> i < int (length (splitImages st)) \<Longrightarrow> i \<noteq> j \<Longrightarrow>
   pairAt (removeImagePair j st) (if j < i then i - 1 else i) = pairAt st i"
  by (auto simp: removeImagePair_def pairAt_def splice1_def Let_def nth_append min_def
        nat_diff_distrib nat_less_iff nat_le_iff)

text \<open>
  Claim C8. After a half of the pair at index \<open>i\<close> has been selected, removing a
  different pair \<open>j\<close> leaves that pair as it was: it is found at \<open>i\<close>, or at \<open>i - 1\<close> when
  \<open>j\<close> came before it, with the selection set by the toggle and both rotation angles
  unchanged.
\<close>

theorem toggleCheck_survives_removeImagePair:
  "pairAt st i = Some p \<Longrightarrow> 0 \<le> j \<Longrightarrow> j < int (length (splitImages st)) \<Longrightarrow> j \<noteq> i \<Longrightarrow>
   (\<exists>q. pairAt (toggleCheck i sd st) i = Some q
       \<and> pairAt (removeImagePair j (toggleCheck i sd st)) (if j < i then i - 1 else i) = Some q
       \<and> checkedOf sd q = (\<not> checkedOf sd p)
       \<and> leftRotation q = leftRotation p \<and> rightRotation q = rightRotation p)"
proof -
  assume p: "pairAt st i = Some p"
    and j: "0 \<le> j" "j < int (length (splitImages st))" "j \<noteq> i"
  let ?st = "toggleCheck i sd st"
  let ?q = "if sd = Left then p\<lparr>leftChecked := \<not> leftChecked p\<rparr>
            else p\<lparr>rightChecked := \<not> rightChecked p\<rparr>"
  have q: "pairAt ?st i = Some ?q" by (rule pairAt_toggleCheck [OF p])
  have i: "0 \<le> i" "i < int (length (splitImages st))"
    using p by (auto simp: pairAt_Some_iff)
  have "pairAt (removeImagePair j ?st) (if j < i then i - 1 else i) = pairAt ?st i"
    using j i by (intro pairAt_removeImagePair) (auto simp: length_toggleCheck)
  with q show ?thesis by (auto simp: checkedOf_def)
qed

theorem toggleCheck_survives_removeImagePair_witness:
  "pairAt (initialState\<lparr>splitImages :=
             [splitResult sampleBrowser 4000 2000 ''a.jpg'',
              (splitResult sampleBrowser 4000 2000 ''b.jpg'')\<lparr>rightRotation := 270\<rparr>]\<rparr>) 1
     = Some ((splitResult sampleBrowser 4000 2000 ''b.jpg'')\<lparr>rightRotation := 270\<rparr>)
   \<and> (\<exists>q. pairAt (removeImagePair 0 (toggleCheck 1 Right
               (initialState\<lparr>splitImages :=
                  [splitResult sampleBrowser 4000 2000 ''a.jpg'',
                   (splitResult sampleBrowser 4000 2000 ''b.jpg'')\<lparr>rightRotation := 270\<rparr>]\<rparr>))) 0 = Some q
          \<and> checkedOf Right q \<and> rightRotation q = 270)"
proof -
  let ?p = "(splitResult sampleBrowser 4000 2000 ''b.jpg'')\<lparr>rightRotation := 270\<rparr>"
  let ?st = "initialState\<lparr>splitImages := [splitResult sampleBrowser 4000 2000 ''a.jpg'', ?p]\<rparr>"
  have p: "pairAt ?st 1 = Some ?p" by (simp add: pairAt_def)
  have j: "(0::int) \<le> 0" "0 < int (length (splitImages ?st))" "(0::int) \<noteq> 1" by simp_all
  have c: "\<not> checkedOf Right ?p"
    by (simp add: checkedOf_def splitResult_def Let_def split: prod.splits)
  show ?thesis
    using p c toggleCheck_survives_removeImagePair [OF p j, where sd = Right]
    by auto
qed

section \<open>Export of the checked halves\<close>

lemma foldl_count_zero:
  "foldl (\<lambda>count img. count + (if leftChecked img then 1 else 0)
                               + (if rightChecked img then 1 else 0)) (k::nat) xs = 0
   \<longleftrightarrow> k = 0 \<and> (\<forall>img \<in> set xs. \<not> leftChecked img \<and> \<not> rightChecked img)"
  by (induction xs arbitrary: k) auto

text \<open>
  Claim C9. When no half is selected the count of checked halves is zero and
  \<open>downloadChecked\<close> returns at once: no download is triggered and neither the progress
  nor the registry nor any flag changes.
\<close>

theorem downloadChecked_nothing_checked:
  "\<forall>img \<in> set (splitImages st). \<not> leftChecked img \<and> \<not> rightChecked img \<Longrightarrow>
     checkedCount st = 0
   \<and> downloadChecked b stopRequested st = st
   \<and> downloads (downloadChecked b stopRequested st) = downloads st"
  by (simp add: downloadChecked_def checkedCount_def foldl_count_zero)

theorem downloadChecked_nothing_checked_witness:
  "checkedCount (initialState\<lparr>splitImages := [splitResult sampleBrowser 4000 2000 ''roll1.jpg'']\<rparr>) = 0
   \<and> downloadChecked sampleBrowser (\<lambda>n. False)
        (initialState\<lparr>splitImages := [splitResult sampleBrowser 4000 2000 ''roll1.jpg'']\<rparr>)
       = initialState\<lparr>splitImages := [splitResult sampleBrowser 4000 2000 ''roll1.jpg'']\<rparr>"
proof -
  let ?st = "initialState\<lparr>splitImages := [splitResult sampleBrowser 4000 2000 ''roll1.jpg'']\<rparr>"
  have h: "\<forall>img \<in> set (splitImages ?st). \<not> leftChecked img \<and> \<not> rightChecked img"
    by (simp add: splitResult_def Let_def split: prod.splits)
  show ?thesis
    using downloadChecked_nothing_checked
            [OF h, where b = sampleBrowser and stopRequested = "\<lambda>n. False"]
    by simp
qed

section \<open>The name of an exported file\<close>

lemma extensionChar_dot [simp]: "\<not> extensionChar CHR ''.''"
  by (simp add: extensionChar_def)

lemma list_all_extensionChar:
  "list_all extensionChar e \<longleftrightarrow> CHR ''.'' \<notin> set e \<and> CHR ''/'' \<notin> set e"
  by (auto simp: list_all_iff extensionChar_def)

lemma stripExtension_cut:
  "list_all extensionChar e \<Longrightarrow> e \<noteq> [] \<Longrightarrow> stripExtension (b @ CHR ''.'' # e) = b"
  by (induction b) simp_all

lemma stripExtension_cases:
  "stripExtension s = s
   \<or> (\<exists>b e. s = b @ CHR ''.'' # e \<and> e \<noteq> [] \<and> list_all extensionChar e)"
proof (induction s)
  case Nil
  then show ?case by simp
next
  case (Cons c s)
  show ?case
  proof (cases "c = CHR ''.'' \<and> s \<noteq> [] \<and> list_all extensionChar s")
    case True
    then have "c # s = [] @ CHR ''.'' # s \<and> s \<noteq> [] \<and> list_all extensionChar s" by simp
    then show ?thesis by blast
  next
    case False
    from Cons.IH show ?thesis
    proof
      assume "stripExtension s = s"
      with False show ?thesis by auto
    next
      assume "\<exists>b e. s = b @ CHR ''.'' # e \<and> e \<noteq> [] \<and> list_all extensionChar e"
      then obtain b e where "s = b @ CHR ''.'' # e" "e \<noteq> []" "list_all extensionChar e"
        by blast
      then have "c # s = (c # b) @ CHR ''.'' # e \<and> e \<noteq> [] \<and> list_all extensionChar e"
        by simp
      then show ?thesis by blast
    qed
  qed
qed

lemma lastExtension_after_last_dot:
  assumes "CHR ''.'' \<notin> set e"
  shows "lastExtension (b @ CHR ''.'' # e) = Some e"
proof -
  have "takeWhile (\<lambda>c. c \<noteq> CHR ''.'') (rev e @ CHR ''.'' # rev b)
          = rev e @ takeWhile (\<lambda>c. c \<noteq> CHR ''.'') (CHR ''.'' # rev b)"
    using assms by (intro takeWhile_append2) auto
  then show ?thesis by (simp add: lastExtension_def)
qed

lemma sourceBaseName_before_last_dot:
  "CHR ''.'' \<notin> set e \<Longrightarrow> sourceBaseName (b @ CHR ''.'' # e) = b"
  by (simp add: sourceBaseName_def lastExtension_after_last_dot)

lemma stripExtension_eq:
  "stripExtension fileName =
     (case lastExtension fileName of
        None \<Rightarrow> fileName
      | Some ext \<Rightarrow>
          if ext \<noteq> [] \<and> CHR ''/'' \<notin> set ext then sourceBaseName fileName else fileName)"
proof (cases "CHR ''.'' \<in> set fileName")
  case False
  then have "lastExtension fileName = None" by (simp add: lastExtension_def)
  moreover have "stripExtension fileName = fileName"
    using stripExtension_cases [of fileName] False by auto
  ultimately show ?thesis by simp
next
  case True
  then obtain b e where s: "fileName = b @ CHR ''.'' # e" and e: "CHR ''.'' \<notin> set e"
    by (meson split_list_last)
  have le: "lastExtension fileName = Some e" and sb: "sourceBaseName fileName = b"
    using s e by (simp_all add: lastExtension_after_last_dot sourceBaseName_before_last_dot)
  show ?thesis
  proof (cases "e \<noteq> [] \<and> CHR ''/'' \<notin> set e")
    case True
    then have "stripExtension fileName = b"
      using s e by (simp add: stripExtension_cut list_all_extensionChar)
    with le sb True show ?thesis by simp
  next
    case False
    have "stripExtension fileName = fileName"
      using stripExtension_cases [of fileName]
    proof
      assume "\<exists>b e. fileName = b @ CHR ''.'' # e \<and> e \<noteq> [] \<and> list_all extensionChar e"
      then obtain b' e' where s': "fileName = b' @ CHR ''.'' # e'"
        and e': "e' \<noteq> []" "list_all extensionChar e'"
        by blast
      then have "lastExtension fileName = Some e'"
        by (simp add: lastExtension_after_last_dot list_all_extensionChar)
      with le have "e' = e" by simp
      with e' False show ?thesis by (simp add: list_all_extensionChar)
    qed
    with le False show ?thesis by auto
  qed
qed

text \<open>
  Claim C7, as amended. For every source file name and either side, the download is named
  by stripping the last dot-delimited extension when that extension is not empty and
  contains no slash, keeping the name whole otherwise, and appending the side label and
  \<open>.jpg\<close>.
\<close>

theorem downloadName_strips_extension:
  "downloadName fileName (sideLabelOf sd) =
     (case lastExtension fileName of
        None \<Rightarrow> fileName
      | Some ext \<Rightarrow>
          if ext \<noteq> [] \<and> CHR ''/'' \<notin> set ext then sourceBaseName fileName else fileName)
     @ ''_'' @ (if sd = Left then ''left'' else ''right'') @ ''.jpg''"
  by (simp add: downloadName_def stripExtension_eq sideLabelOf_def)

theorem downloadName_strips_extension_witness:
  "downloadName ''roll1.jpg'' (sideLabelOf Left) = ''roll1_left.jpg''"
  using downloadName_strips_extension [of "''roll1.jpg''" Left]
  by (simp add: lastExtension_def sourceBaseName_def)

text \<open>
  Claim C7 as stated fails for a name that ends in a dot: its last extension is empty, the
  pattern asks for at least one character after the dot, and the dot stays in the name.
\<close>

theorem downloadName_trailing_dot_counterexample:
  "downloadName ''roll1.'' (sideLabelOf Left) = ''roll1._left.jpg''
   \<and> sourceBaseName ''roll1.'' @ ''_'' @ sideLabelOf Left @ ''.jpg'' = ''roll1_left.jpg''
   \<and> downloadName ''roll1.'' (sideLabelOf Left)
       \<noteq> sourceBaseName ''roll1.'' @ ''_'' @ sideLabelOf Left @ ''.jpg''"
  by (simp add: downloadName_def sideLabelOf_def sourceBaseName_def lastExtension_def
        extensionChar_def)

section \<open>Import of a batch with a file that does not decode\<close>

lemma slice_two:
  "i + 1 < length fs \<Longrightarrow> slice fs i (i + batchSize) = [fs ! i, fs ! (i + 1)]"
  by (simp add: slice_def batchSize_def numeral_2_eq_2 Cons_nth_drop_Suc [symmetric])

lemma slice_one:
  "i + 1 = length fs \<Longrightarrow> slice fs i (i + batchSize) = [fs ! i]"
  by (simp add: slice_def batchSize_def numeral_2_eq_2 Cons_nth_drop_Suc [symmetric])

text \<open>
  With exactly one failing file at position \<open>k\<close> and no stop request, the loop ends with
  the rejection in the round that holds \<open>k\<close>: the registry has gained the files of the
  rounds before it and nothing else.
\<close>

lemma importLoop_one_failure:
  "k < length fs \<Longrightarrow> processFile b (fs ! k) = Inl e \<Longrightarrow>
   (\<forall>j < length fs. j \<noteq> k \<longrightarrow> (\<exists>r. processFile b (fs ! j) = Inr r)) \<Longrightarrow>
   (\<forall>j. \<not> stopRequested j) \<Longrightarrow> even i \<Longrightarrow> i \<le> k \<Longrightarrow> \<not> shouldStopImport st \<Longrightarrow>
   fst (importLoop b stopRequested fs i st) = Some e
   \<and> length (splitImages (snd (importLoop b stopRequested fs i st)))
       = length (splitImages st) + (2 * (k div 2) - i)
   \<and> isImporting (snd (importLoop b stopRequested fs i st)) = isImporting st"
proof (induction b stopRequested fs i st rule: importLoop.induct)
  case (1 b stopRequested fileArray i st)
  have i: "i < length fileArray" using "1.prems" by simp
  have others: "\<exists>r. processFile b (fileArray ! j) = Inr r"
    if "j < length fileArray" "j \<noteq> k" for j
    using "1.prems" that by blast
  show ?case
  proof (cases "k < i + 2")
    case True
    have ki: "2 * (k div 2) - i = 0" using True "1.prems" by (auto elim!: evenE)
    have "promiseAll (map (processFile b) (slice fileArray i (i + batchSize))) = Inl e"
    proof (cases "k = i")
      case True
      then have "processFile b (fileArray ! i) = Inl e" using "1.prems" by simp
      moreover have "i + 1 < length fileArray \<or> i + 1 = length fileArray" using i by auto
      ultimately show ?thesis by (auto simp: slice_two slice_one)
    next
      case False
      then have k: "k = i + 1" using True "1.prems" by simp
      then obtain r where "processFile b (fileArray ! i) = Inr r" using others [of i] i by auto
      then show ?thesis using "1.prems" k by (simp add: slice_two)
    qed
    then show ?thesis using i "1.prems" ki by (simp add: importLoop.simps [of _ _ _ i])
  next
    case False
    then have i1: "i + 1 < length fileArray" using "1.prems" by simp
    obtain r1 where r1: "processFile b (fileArray ! i) = Inr r1"
      using others [of i] i False by auto
    obtain r2 where r2: "processFile b (fileArray ! (i + 1)) = Inr r2"
      using others [of "i + 1"] i1 False by auto
    have pa: "promiseAll (map (processFile b) (slice fileArray i (i + batchSize)))
                = Inr [r1, r2]"
      using r1 r2 i1 by (simp add: slice_two)
    let ?st = "st\<lparr>splitImages := splitImages st @ [r1, r2],
                  importProgress :=
                    (importProgress st)\<lparr>current := min (i + batchSize) (length fileArray)\<rparr>,
                  shouldStopImport := shouldStopImport st \<or> stopRequested i\<rparr>"
    have step: "importLoop b stopRequested fileArray i st
                  = importLoop b stopRequested fileArray (i + batchSize) ?st"
      using i "1.prems" pa by (simp add: importLoop.simps [of _ _ _ i])
    have ih: "fst (importLoop b stopRequested fileArray (i + batchSize) ?st) = Some e
       \<and> length (splitImages (snd (importLoop b stopRequested fileArray (i + batchSize) ?st)))
           = length (splitImages ?st) + (2 * (k div 2) - (i + batchSize))
       \<and> isImporting (snd (importLoop b stopRequested fileArray (i + batchSize) ?st))
           = isImporting ?st"
      using "1.prems" False i pa
      by (intro "1.IH" [OF i _ pa]) (auto simp: batchSize_def)
    have "even i" "i + 2 \<le> k" using False "1.prems" by simp_all
    then have "2 * (k div 2) \<ge> i + 2" by presburger
    then show ?thesis using ih by (simp add: step batchSize_def)
  qed
qed

lemma handleFileSelect_one_failure:
  assumes images: "\<forall>f \<in> set fs. startsWith (ftype f) ''image/''"
    and k: "k < length fs" "processFile b (fs ! k) = Inl e"
    and others: "\<forall>j < length fs. j \<noteq> k \<longrightarrow> (\<exists>r. processFile b (fs ! j) = Inr r)"
    and nostop: "\<forall>j. \<not> stopRequested j"
  shows "fst (handleFileSelect b stopRequested (Some fs) st) = Some e
    \<and> length (splitImages (snd (handleFileSelect b stopRequested (Some fs) st)))
        = length (splitImages st) + 2 * (k div 2)
    \<and> isImporting (snd (handleFileSelect b stopRequested (Some fs) st))"
proof -
  let ?st = "st\<lparr>isImporting := True, shouldStopImport := False,
                importProgress := \<lparr>current = 0, total = length fs\<rparr>\<rparr>"
  have f: "filter (\<lambda>f. startsWith (ftype f) ''image/'') fs = fs"
    using images by simp
  have loop: "fst (importLoop b stopRequested fs 0 ?st) = Some e
     \<and> length (splitImages (snd (importLoop b stopRequested fs 0 ?st)))
         = length (splitImages ?st) + (2 * (k div 2) - 0)
     \<and> isImporting (snd (importLoop b stopRequested fs 0 ?st)) = isImporting ?st"
    using k others nostop by (intro importLoop_one_failure) auto
  obtain st' where st': "importLoop b stopRequested fs 0 ?st = (Some e, st')"
    using loop by (cases "importLoop b stopRequested fs 0 ?st") auto
  have "handleFileSelect b stopRequested (Some fs) st = (Some e, st')"
    using k(1) st' by (auto simp: handleFileSelect_def f Let_def)
  with loop st' show ?thesis by simp
qed

text \<open>
  Claim C1 says that a batch with one file that fails to decode still imports the other
  files. The code does not: of five image files of which the third is corrupt, only the
  first two reach the registry. The rejection ends the import in the second round, so the
  fourth and fifth file are never read, the progress stays at 2 of 5 and the importing
  flag stays set.
\<close>

theorem handleFileSelect_corrupt_third_of_five:
  "handleFileSelect sampleBrowser (\<lambda>i. False)
     (Some [\<lparr>fname = ''f1.jpg'', ftype = ''image/jpeg'', fcontent = Some (Bitmap 4000 2000)\<rparr>,
            \<lparr>fname = ''f2.jpg'', ftype = ''image/jpeg'', fcontent = Some (Bitmap 4000 2000)\<rparr>,
            \<lparr>fname = ''f3.jpg'', ftype = ''image/jpeg'', fcontent = Some Corrupt\<rparr>,
            \<lparr>fname = ''f4.jpg'', ftype = ''image/jpeg'', fcontent = Some (Bitmap 4000 2000)\<rparr>,
            \<lparr>fname = ''f5.jpg'', ftype = ''image/jpeg'', fcontent = Some (Bitmap 4000 2000)\<rparr>])
     initialState
   = (Some DecodeError,
      initialState\<lparr>splitImages := [splitResult sampleBrowser 4000 2000 ''f1.jpg'',
                                     splitResult sampleBrowser 4000 2000 ''f2.jpg''],
                   isImporting := True,
                   importProgress := \<lparr>current = 2, total = 5\<rparr>\<rparr>)"
  by (simp add: handleFileSelect_def startsWith_def importLoop.simps slice_def batchSize_def
        processFile_def splitImageInHalf_def initialState_def)

end
